theory Spec2Isabelle
  imports
    Main
    "HOL-Library.Multiset"
    "HOL-Library.Product_Lexorder"
begin

section \<open>JavaScript array operations used by the SDK\<close>

text \<open>
  The receiver lists of the SDK are JavaScript arrays.  The code uses four built-in
  operations on them: \<^verbatim>\<open>some\<close>, \<^verbatim>\<open>push\<close>, \<^verbatim>\<open>reduce\<close> (left to right, with an
  initial accumulator) and \<^verbatim>\<open>sort\<close> with a comparator.  On the level of array contents
  they are the following list functions.
\<close>

definition js_some :: "('a \<Rightarrow> bool) \<Rightarrow> 'a list \<Rightarrow> bool" where
  "js_some p xs = list_ex p xs"

definition js_push :: "'a list \<Rightarrow> 'a \<Rightarrow> 'a list" where
  "js_push xs x = xs @ [x]"

definition js_reduce :: "('acc \<Rightarrow> 'a \<Rightarrow> 'acc) \<Rightarrow> 'acc \<Rightarrow> 'a list \<Rightarrow> 'acc" where
  "js_reduce f init xs = fold (\<lambda>x acc. f acc x) xs init"

text \<open>
  \<^verbatim>\<open>Array.prototype.sort(cmp)\<close> is a stable sort (ECMAScript 2019): \<^verbatim>\<open>a\<close> is placed
  before \<^verbatim>\<open>b\<close> when \<^verbatim>\<open>cmp(a, b) < 0\<close>, after it when \<^verbatim>\<open>cmp(a, b) > 0\<close>, and elements
  that compare as \<open>0\<close> keep their relative order.  For a consistent comparator every
  stable sort returns the same array; the model is the stable insertion sort.
\<close>

fun js_insert :: "('a \<Rightarrow> 'a \<Rightarrow> int) \<Rightarrow> 'a \<Rightarrow> 'a list \<Rightarrow> 'a list" where
  "js_insert cmp a [] = [a]"
| "js_insert cmp a (b # bs) =
     (if cmp a b > 0 then b # js_insert cmp a bs else a # b # bs)"

definition js_sort :: "('a \<Rightarrow> 'a \<Rightarrow> int) \<Rightarrow> 'a list \<Rightarrow> 'a list" where
  "js_sort cmp xs = foldr (js_insert cmp) xs []"


section \<open>Receiver structures\<close>

text \<open>
  \<^verbatim>\<open>DripsReceiverStruct = { userId, config }\<close> and
  \<^verbatim>\<open>SplitsReceiverStruct = { userId, weight }\<close>.  TypeScript types are structural, so
  the shared field \<^verbatim>\<open>userId\<close> is one record field and the two structures extend it.
  The field types are parameters: in \<^verbatim>\<open>AddressAppClient.ts\<close> every field is a
  \<^verbatim>\<open>BigNumberish\<close>, in \<^verbatim>\<open>validators.ts\<close> the fields of a receiver may be missing and
  \<^verbatim>\<open>config\<close> is an unpacked \<^verbatim>\<open>DripsReceiverConfig\<close>.
\<close>

record 'u HasUserId =
  userId :: 'u

record ('u, 'c) DripsReceiverStruct = "'u HasUserId" +
  config :: 'c

record ('u, 'w) SplitsReceiverStruct = "'u HasUserId" +
  weight :: 'w

text \<open>
  Modelled from the spec: \<^verbatim>\<open>toBN\<close> is imported from \<^verbatim>\<open>common/internals\<close>, which is
  not among the sources; it converts a \<^verbatim>\<open>BigNumberish\<close> into a big integer (the spec's
  "big-integer comparison").  A \<^verbatim>\<open>BigNumberish\<close> is a JavaScript number, a bigint or a
  string; the same integer has one value of each kind, and JavaScript's \<^verbatim>\<open>===\<close> holds
  between two of them only if kind and content agree.  \<open>JsNumber n\<close> is the (safe integer)
  number \<open>n\<close>, \<open>JsBigint n\<close> the bigint \<open>n\<close>, and \<open>JsString n\<close> the decimal string
  of \<open>n\<close>; \<^verbatim>\<open>===\<close> is equality of the datatype.
\<close>

datatype BigNumberish = JsNumber int | JsBigint int | JsString int

fun toBN :: "BigNumberish \<Rightarrow> int" where
  "toBN (JsNumber n) = n"
| "toBN (JsBigint n) = n"
| "toBN (JsString n) = n"


section \<open>Canonicalization of receiver lists (AddressAppClient)\<close>

text \<open>
  The two private methods \<^verbatim>\<open>#formatDripsReceivers\<close> and \<^verbatim>\<open>#formatSplitReceivers\<close>.
  The conversion \<^verbatim>\<open>toBN\<close> is a parameter \<open>bn\<close>, so that the theorems hold for every
  conversion into integers; JavaScript's \<^verbatim>\<open>===\<close> on a field is equality on the field's
  type.  The parameter is total: the fields hold values that \<^verbatim>\<open>toBN\<close> converts, as
  the type \<^verbatim>\<open>BigNumberish\<close> of the fields says.  The comparators are the nested
  conditionals of the source.
\<close>

definition compareDripsReceivers ::
  "('b \<Rightarrow> int) \<Rightarrow> ('b, 'b) DripsReceiverStruct \<Rightarrow> ('b, 'b) DripsReceiverStruct \<Rightarrow> int" where
  "compareDripsReceivers bn a b =
     (if bn (userId a) > bn (userId b) then 1
      else if bn (userId a) < bn (userId b) then - 1
      else if bn (config a) > bn (config b) then 1
      else if bn (config a) < bn (config b) then - 1
      else 0)"

definition formatDripsReceivers ::
  "('b \<Rightarrow> int) \<Rightarrow> ('b, 'b) DripsReceiverStruct list \<Rightarrow> ('b, 'b) DripsReceiverStruct list" where
  "formatDripsReceivers bn receivers =
     (let uniqueReceivers =
            js_reduce
              (\<lambda>unique o'.
                 if \<not> js_some (\<lambda>obj. userId obj = userId o' \<and> bn (config obj) = bn (config o')) unique
                 then js_push unique o' else unique)
              [] receivers;
          sortedReceivers = js_sort (compareDripsReceivers bn) uniqueReceivers
      in sortedReceivers)"

definition compareSplitsReceivers ::
  "('b \<Rightarrow> int) \<Rightarrow> ('b, 'w) SplitsReceiverStruct \<Rightarrow> ('b, 'w) SplitsReceiverStruct \<Rightarrow> int" where
  "compareSplitsReceivers bn a b =
     (if bn (userId a) > bn (userId b) then 1
      else if bn (userId a) < bn (userId b) then - 1
      else 0)"

definition formatSplitReceivers ::
  "('b \<Rightarrow> int) \<Rightarrow> ('b, 'w) SplitsReceiverStruct list \<Rightarrow> ('b, 'w) SplitsReceiverStruct list" where
  "formatSplitReceivers bn receivers =
     (let uniqueReceivers =
            js_reduce
              (\<lambda>unique o'.
                 if \<not> js_some (\<lambda>obj. userId obj = userId o' \<and> weight obj = weight o') unique
                 then js_push unique o' else unique)
              [] receivers;
          sortedReceivers = js_sort (compareSplitsReceivers bn) uniqueReceivers
      in sortedReceivers)"


subsection \<open>The arrays as objects in a store\<close>

text \<open>
  A JavaScript array is a mutable object: \<^verbatim>\<open>push\<close> and \<^verbatim>\<open>sort\<close> change the array
  they are called on, and \<^verbatim>\<open>sort\<close> returns that same array.  To say what
  \<^verbatim>\<open>#formatDripsReceivers\<close> does to its argument, arrays live in a store: a list of
  array contents, the address of an array being its position.  \<^verbatim>\<open>[]\<close> allocates a new
  array at the end of the store.  \<^verbatim>\<open>reduce\<close> visits the indices \<open>0..<len\<close>, where
  \<open>len\<close> is the length of the array when \<^verbatim>\<open>reduce\<close> starts, reads each element when
  it is visited, and skips an index that is no longer in the array.
\<close>

type_synonym 'a heap = "'a list list"

definition array_new :: "'a heap \<Rightarrow> nat \<times> 'a heap" where
  "array_new h = (length h, h @ [[]])"

definition array_some :: "('a \<Rightarrow> bool) \<Rightarrow> nat \<Rightarrow> 'a heap \<Rightarrow> bool" where
  "array_some p a h = js_some p (h ! a)"

definition array_push :: "nat \<Rightarrow> 'a \<Rightarrow> 'a heap \<Rightarrow> 'a heap" where
  "array_push a x h = h[a := js_push (h ! a) x]"

definition array_sort :: "('a \<Rightarrow> 'a \<Rightarrow> int) \<Rightarrow> nat \<Rightarrow> 'a heap \<Rightarrow> 'a heap" where
  "array_sort cmp a h = h[a := js_sort cmp (h ! a)]"

fun array_reduce ::
  "(nat \<Rightarrow> 'a \<Rightarrow> 'a heap \<Rightarrow> nat \<times> 'a heap) \<Rightarrow> nat \<Rightarrow> nat list \<Rightarrow> nat \<Rightarrow> 'a heap
     \<Rightarrow> nat \<times> 'a heap" where
  "array_reduce f r [] acc h = (acc, h)"
| "array_reduce f r (i # ks) acc h =
     (if i < length (h ! r)
      then (case f acc (h ! r ! i) h of (acc', h') \<Rightarrow> array_reduce f r ks acc' h')
      else array_reduce f r ks acc h)"

text \<open>
  \<^verbatim>\<open>#formatDripsReceivers\<close> on the store: \<open>receivers\<close> is the address of the argument,
  the result is the address of the returned array and the store after the call.
\<close>

definition formatDripsReceivers_arr ::
  "('b \<Rightarrow> int) \<Rightarrow> nat \<Rightarrow> ('b, 'b) DripsReceiverStruct heap
     \<Rightarrow> nat \<times> ('b, 'b) DripsReceiverStruct heap" where
  "formatDripsReceivers_arr bn receivers h =
     (case array_new h of (unique0, h0) \<Rightarrow>
      case array_reduce
             (\<lambda>unique o' h.
                (unique,
                 if \<not> array_some
                          (\<lambda>obj. userId obj = userId o' \<and> bn (config obj) = bn (config o'))
                          unique h
                 then array_push unique o' h else h))
             receivers [0..<length (h0 ! receivers)] unique0 h0
      of (uniqueReceivers, h1) \<Rightarrow>
        (uniqueReceivers, array_sort (compareDripsReceivers bn) uniqueReceivers h1))"



subsection \<open>The specification's deduplication\<close>

text \<open>
  The specification's "deduplicate by identity key, keeping the first occurrence", in its
  own words: the element at position \<open>i\<close> stays if and only if no element before
  position \<open>i\<close> has the same key, and the elements that stay keep their order.
\<close>

definition first_occurrences :: "('a \<Rightarrow> 'k) \<Rightarrow> 'a list \<Rightarrow> 'a list" where
  "first_occurrences key xs =
     map (nth xs) (filter (\<lambda>i. key (xs ! i) \<notin> key ` set (take i xs)) [0..<length xs])"


section \<open>Errors (DripsError)\<close>

datatype DripsErrorCode =
    INVALID_ADDRESS
  | INVALID_ARGUMENT
  | MISSING_ARGUMENT
  | UNSUPPORTED_NETWORK
  | SUBGRAPH_QUERY_ERROR
  | INVALID_DRIPS_RECEIVER
  | INVALID_SPLITS_RECEIVER

text \<open>
  The \<^verbatim>\<open>context\<close> of an error is one of the objects that the factory methods of
  \<^verbatim>\<open>DripsErrors\<close> build; \<open>'v\<close> is the type of the values they carry (\<^verbatim>\<open>unknown\<close> in the
  source).  The \<^verbatim>\<open>message\<close> of an error is a text for the reader of a log; no decision
  of the code depends on it and it is not part of the model.
\<close>

datatype 'v ErrorContext =
    InvalidAddress string
  | MissingArgumentName string
  | UnsupportedChainId int
  | InvalidArgument string 'v
  | InvalidProperty string 'v
  | NoContext

record 'v DripsError =
  code :: DripsErrorCode
  "context" :: "'v ErrorContext"

definition addressError :: "string \<Rightarrow> 'v DripsError" where
  "addressError address = \<lparr>code = INVALID_ADDRESS, context = InvalidAddress address\<rparr>"

definition argumentMissingError :: "string \<Rightarrow> 'v DripsError" where
  "argumentMissingError argName = \<lparr>code = MISSING_ARGUMENT, context = MissingArgumentName argName\<rparr>"


definition argumentError :: "string \<Rightarrow> 'v \<Rightarrow> 'v DripsError" where
  "argumentError argName argValue =
     \<lparr>code = INVALID_ARGUMENT, context = InvalidArgument argName argValue\<rparr>"

definition splitsReceiverError :: "string \<Rightarrow> 'v \<Rightarrow> 'v DripsError" where
  "splitsReceiverError invalidPropertyName invalidPropertyValue =
     \<lparr>code = INVALID_SPLITS_RECEIVER,
      context = InvalidProperty invalidPropertyName invalidPropertyValue\<rparr>"

definition dripsReceiverError :: "string \<Rightarrow> 'v \<Rightarrow> 'v DripsError" where
  "dripsReceiverError invalidPropertyName invalidPropertyValue =
     \<lparr>code = INVALID_DRIPS_RECEIVER,
      context = InvalidProperty invalidPropertyName invalidPropertyValue\<rparr>"

definition subgraphQueryError :: "'v DripsError" where
  "subgraphQueryError = \<lparr>code = SUBGRAPH_QUERY_ERROR, context = NoContext\<rparr>"

text \<open>
  Modelled from the spec: \<^verbatim>\<open>DripsErrors.dripsReceiverConfigError\<close> is called by
  \<^verbatim>\<open>validateDripsReceiverConfig\<close>, but the \<^verbatim>\<open>DripsError.ts\<close> among the sources does
  not define it.  The specification's error taxonomy has one kind for an invalid drips
  receiver (\<^verbatim>\<open>InvalidReceiver\<close>, "drips- or splits-specific"), and the three arguments of
  the call are those of \<^verbatim>\<open>dripsReceiverError\<close>: the error is built like that one.
\<close>

definition dripsReceiverConfigError :: "string \<Rightarrow> 'v \<Rightarrow> 'v DripsError" where
  "dripsReceiverConfigError invalidPropertyName invalidPropertyValue =
     \<lparr>code = INVALID_DRIPS_RECEIVER,
      context = InvalidProperty invalidPropertyName invalidPropertyValue\<rparr>"

text \<open>
  A statement that may throw returns \<open>Inl\<close> of the error or \<open>Inr ()\<close>; \<open>andThen\<close>
  is the sequence of two statements, and \<open>js_forEach\<close> is \<^verbatim>\<open>forEach\<close> with a callback
  that may throw.
\<close>

fun andThen :: "'e + unit \<Rightarrow> 'e + 'a \<Rightarrow> 'e + 'a" where
  "andThen (Inl e) next = Inl e"
| "andThen (Inr u) next = next"

fun js_forEach :: "('a \<Rightarrow> 'e + unit) \<Rightarrow> 'a list \<Rightarrow> 'e + unit" where
  "js_forEach f [] = Inr ()"
| "js_forEach f (x # xs) = andThen (f x) (js_forEach f xs)"


section \<open>Validators (common/validators.ts)\<close>

text \<open>
  \<^verbatim>\<open>DripsReceiverConfig\<close> has four bigint fields.  A field read from an object given by
  a caller may be \<^verbatim>\<open>null\<close> or \<^verbatim>\<open>undefined\<close>; both are \<open>None\<close>, as the validators only
  ask whether a value is one of the two.  \<^verbatim>\<open>nameOf({ x })\<close> is the name of the variable
  \<^verbatim>\<open>x\<close>, written here as the string.
\<close>

record DripsReceiverConfig =
  dripId :: "int option"
  start :: "int option"
  duration :: "int option"
  amountPerSec :: "int option"

type_synonym DripsReceiver = "(string option, DripsReceiverConfig option) DripsReceiverStruct"

type_synonym SplitsReceiver = "(BigNumberish option, BigNumberish option) SplitsReceiverStruct"

text \<open>The values that the validators put into the context of an error.\<close>

datatype ErrorValue =
    DripsReceiversValue "DripsReceiver list"
  | SplitsReceiversValue "SplitsReceiver list"
  | StringValue "string option"
  | ConfigValue "DripsReceiverConfig option"
  | BigintValue "int option"
  | BigNumberishValue "BigNumberish option"

text \<open>
  Modelled from the spec: \<^verbatim>\<open>isNullOrUndefined\<close> is imported from \<^verbatim>\<open>common/internals\<close>,
  which is not among the sources.  It finds what the specification calls a missing value:
  it is true of \<^verbatim>\<open>null\<close> and of \<^verbatim>\<open>undefined\<close> and of nothing else.
\<close>

definition isNullOrUndefined :: "'a option \<Rightarrow> bool" where
  "isNullOrUndefined v = (v = None)"

text \<open>
  \<^verbatim>\<open>!v\<close> for a \<^verbatim>\<open>BigNumberish\<close> that may be missing: \<^verbatim>\<open>null\<close>, \<^verbatim>\<open>undefined\<close>, the
  number \<open>0\<close> and the bigint \<open>0n\<close> are falsy; a decimal string is not empty and so is
  truthy.  \<^verbatim>\<open>v <= 0\<close> compares the numeric value.
\<close>

fun falsy :: "BigNumberish option \<Rightarrow> bool" where
  "falsy None = True"
| "falsy (Some (JsNumber n)) = (n = 0)"
| "falsy (Some (JsBigint n)) = (n = 0)"
| "falsy (Some (JsString n)) = False"

fun js_le_zero :: "BigNumberish \<Rightarrow> bool" where
  "js_le_zero (JsNumber n) = (n \<le> 0)"
| "js_le_zero (JsBigint n) = (n \<le> 0)"
| "js_le_zero (JsString n) = (n \<le> 0)"

definition MAX_DRIPS_RECEIVERS :: nat where
  "MAX_DRIPS_RECEIVERS = 100"

definition MAX_SPLITS_RECEIVERS :: nat where
  "MAX_SPLITS_RECEIVERS = 200"


definition validateDripsReceiverConfig ::
  "DripsReceiverConfig option \<Rightarrow> ErrorValue DripsError + unit" where
  "validateDripsReceiverConfig dripsReceiverConfig =
     (case dripsReceiverConfig of
        None \<Rightarrow> Inl (argumentMissingError ''dripsReceiverConfig'')
      | Some c \<Rightarrow>
          if isNullOrUndefined (dripId c) \<or> the (dripId c) < 0
          then Inl (dripsReceiverConfigError ''start'' (BigintValue (start c)))
          else if isNullOrUndefined (start c) \<or> the (start c) < 0
          then Inl (dripsReceiverConfigError ''start'' (BigintValue (start c)))
          else if isNullOrUndefined (duration c) \<or> the (duration c) < 0
          then Inl (dripsReceiverConfigError ''duration'' (BigintValue (duration c)))
          else if isNullOrUndefined (amountPerSec c) \<or> the (amountPerSec c) \<le> 0
          then Inl (dripsReceiverConfigError ''amountPerSec'' (BigintValue (amountPerSec c)))
          else Inr ())"

definition validateDripsReceivers :: "DripsReceiver list option \<Rightarrow> ErrorValue DripsError + unit" where
  "validateDripsReceivers receivers =
     (case receivers of
        None \<Rightarrow> Inl (argumentMissingError ''receivers'')
      | Some rs \<Rightarrow>
          if length rs > MAX_DRIPS_RECEIVERS
          then Inl (argumentError ''receivers'' (DripsReceiversValue rs))
          else if length rs \<noteq> 0
          then js_forEach
                 (\<lambda>receiver.
                    if isNullOrUndefined (userId receiver)
                    then Inl (dripsReceiverError ''userId'' (StringValue (userId receiver)))
                    else if isNullOrUndefined (config receiver)
                    then Inl (dripsReceiverError ''config'' (ConfigValue (config receiver)))
                    else validateDripsReceiverConfig (config receiver))
                 rs
          else Inr ())"

definition validateSplitsReceivers :: "SplitsReceiver list option \<Rightarrow> ErrorValue DripsError + unit" where
  "validateSplitsReceivers receivers =
     (case receivers of
        None \<Rightarrow> Inl (argumentMissingError ''receivers'')
      | Some rs \<Rightarrow>
          if length rs > MAX_SPLITS_RECEIVERS
          then Inl (argumentError ''receivers'' (SplitsReceiversValue rs))
          else if length rs \<noteq> 0
          then js_forEach
                 (\<lambda>receiver.
                    if falsy (userId receiver)
                    then Inl (splitsReceiverError ''userId'' (BigNumberishValue (userId receiver)))
                    else if isNullOrUndefined (weight receiver)
                    then Inl (splitsReceiverError ''weight'' (BigNumberishValue (weight receiver)))
                    else if js_le_zero (the (weight receiver))
                    then Inl (splitsReceiverError ''weight'' (BigNumberishValue (weight receiver)))
                    else Inr ())
                 rs
          else Inr ())"



section \<open>The methods of the client (AddressAppClient)\<close>













text \<open>
  The static \<^verbatim>\<open>async\<close> method \<^verbatim>\<open>create\<close>.  A provider has a signer, or none, and a
  network, of which the method reads the chain id; a signer has an address, or none.
  \<^verbatim>\<open>provider.getSigner()\<close>, \<^verbatim>\<open>signer.getAddress()\<close> and \<^verbatim>\<open>provider.getNetwork()\<close> are
  calls to the provider, the last two awaited.  \<^verbatim>\<open>!signerAddress\<close> holds of a missing
  address and of the empty string.  \<^verbatim>\<open>Utils.Network.isSupportedChain\<close> and
  \<^verbatim>\<open>DripsHubClient.create\<close> are the parameters \<open>isSupportedChain\<close> and
  \<open>createDripsHubClient\<close>.  The client that the promise resolves to is given by the
  address of its signer, its chain id and its \<^verbatim>\<open>DripsHubClient\<close>.
\<close>

record Signer =
  address :: "string option"




section \<open>Users streaming to a user (DripsSubgraphClient)\<close>

text \<open>
  A \<^verbatim>\<open>DripsReceiverSeenEvent\<close> as \<^verbatim>\<open>mapDripsReceiverSeenEventToDto\<close> builds it: the
  numeric fields are bigints.  The fields \<^verbatim>\<open>id\<close> and \<^verbatim>\<open>config\<close> are \<open>eventId\<close> and
  \<open>eventConfig\<close> here, \<^verbatim>\<open>dripsSetEvent\<close> is the pair of its \<^verbatim>\<open>id\<close> and \<^verbatim>\<open>assetId\<close>.
  The subgraph is the parameter \<open>getDripsReceiverSeenEventsByReceiverId\<close>: the events it
  answers with, or the error of a failed query.
\<close>

record DripsReceiverSeenEvent =
  eventId :: string
  eventConfig :: int
  senderUserId :: int
  receiverUserId :: int
  dripsSetEvent :: "string \<times> int"
  blockTimestamp :: int

definition getUsersStreamingToUser ::
  "(BigNumberish \<Rightarrow> ErrorValue DripsError + DripsReceiverSeenEvent list) \<Rightarrow> BigNumberish option
     \<Rightarrow> ErrorValue DripsError + int list" where
  "getUsersStreamingToUser getDripsReceiverSeenEventsByReceiverId receiverUserId' =
     (if falsy receiverUserId' then Inl (argumentMissingError ''receiverUserId'')
      else
        case getDripsReceiverSeenEventsByReceiverId (the receiverUserId') of
          Inl e \<Rightarrow> Inl e
        | Inr dripReceiverSeenEvents \<Rightarrow>
            let uniqueSenders =
                  js_reduce
                    (\<lambda>unique o'.
                       if \<not> js_some (\<lambda>id'. id' = senderUserId o') unique
                       then js_push unique (senderUserId o') else unique)
                    [] dripReceiverSeenEvents
            in Inr uniqueSenders)"


section \<open>The account estimator (AccountEstimator)\<close>

text \<open>
  An estimator holds \<^verbatim>\<open>#userId\<close>, \<^verbatim>\<open>#chainId\<close> and the snapshot \<^verbatim>\<open>#account\<close>
  (\<open>None\<close> while it is \<^verbatim>\<open>undefined\<close>).  Its two collaborators are injected by
  \<^verbatim>\<open>dependencyFactory\<close> and are parameters here: the Account Service, which answers a
  request from the requests made so far and the request, and the estimator engine, a
  function of the snapshot, the current cycle and the squeezes to exclude.  The requests
  made to the Account Service are the state outside the estimator.
  \<^verbatim>\<open>Utils.Cycle.getInfo\<close> is the parameter \<open>getInfo\<close>; it reads the clock, which is
  the argument \<open>now\<close>.
\<close>

record 'a AccountEstimator = "string HasUserId" +
  chainId :: int
  account :: "'a option"

type_synonym AccountServiceLog = "(string \<times> int) list"

definition refreshAccount ::
  "(AccountServiceLog \<Rightarrow> string \<Rightarrow> int \<Rightarrow> 'e + 'a) \<Rightarrow> 'a AccountEstimator \<Rightarrow> AccountServiceLog
     \<Rightarrow> ('e + unit) \<times> 'a AccountEstimator \<times> AccountServiceLog" where
  "refreshAccount fetchAccount this requests =
     (case fetchAccount requests (userId this) (chainId this) of
        Inl e \<Rightarrow> (Inl e, this, requests @ [(userId this, chainId this)])
      | Inr fetched \<Rightarrow>
          (Inr (), this\<lparr>account := Some fetched\<rparr>, requests @ [(userId this, chainId this)]))"

definition estimate ::
  "('a option \<Rightarrow> 'c \<Rightarrow> 's \<Rightarrow> 'r) \<Rightarrow> (int \<Rightarrow> 't \<Rightarrow> 'c) \<Rightarrow> 't \<Rightarrow> 's \<Rightarrow> 'a AccountEstimator
     \<Rightarrow> AccountServiceLog \<Rightarrow> 'r \<times> 'a AccountEstimator \<times> AccountServiceLog" where
  "estimate estimateAccount getInfo now excludingSqueezes this requests =
     (let currentCycle = getInfo (chainId this) now
      in (estimateAccount (account this) currentCycle excludingSqueezes, this, requests))"

section \<open>Properties of the array operations\<close>

lemmas js_array_defs = js_reduce_def js_some_def js_push_def js_sort_def

lemmas array_defs = array_new_def array_some_def array_push_def array_sort_def

lemmas error_defs = addressError_def argumentMissingError_def argumentError_def
  splitsReceiverError_def dripsReceiverError_def dripsReceiverConfigError_def

subsection \<open>First occurrences\<close>

lemma first_occurrences_Nil: "first_occurrences k [] = []"
  by (simp add: first_occurrences_def)

lemma first_occurrences_snoc:
  "first_occurrences k (xs @ [x]) =
     first_occurrences k xs @ (if k x \<in> k ` set xs then [] else [x])"
proof -
  have a: "filter (\<lambda>i. k ((xs @ [x]) ! i) \<notin> k ` set (take i (xs @ [x]))) [0..<length xs]
         = filter (\<lambda>i. k (xs ! i) \<notin> k ` set (take i xs)) [0..<length xs]"
    by (rule filter_cong [OF refl]) (simp add: nth_append)
  have b: "map (nth (xs @ [x])) (filter (\<lambda>i. k (xs ! i) \<notin> k ` set (take i xs)) [0..<length xs])
         = map (nth xs) (filter (\<lambda>i. k (xs ! i) \<notin> k ` set (take i xs)) [0..<length xs])"
    by (rule map_cong [OF refl]) (simp add: nth_append)
  have c: "[0..<length (xs @ [x])] = [0..<length xs] @ [length xs]"
    by simp
  show ?thesis
    unfolding first_occurrences_def
    by (simp only: c filter_append map_append a b) simp
qed

lemma key_set_first_occurrences: "k ` set (first_occurrences k xs) = k ` set xs"
  by (induction xs rule: rev_induct) (auto simp: first_occurrences_Nil first_occurrences_snoc)

lemma set_first_occurrences_subset: "set (first_occurrences k xs) \<subseteq> set xs"
  by (induction xs rule: rev_induct) (auto simp: first_occurrences_Nil first_occurrences_snoc)

lemma distinct_key_first_occurrences: "distinct (map k (first_occurrences k xs))"
proof (induction xs rule: rev_induct)
  case Nil
  show ?case by (simp add: first_occurrences_Nil)
next
  case (snoc x xs)
  have "k x \<notin> k ` set xs \<Longrightarrow> k x \<notin> k ` set (first_occurrences k xs)"
    by (simp add: key_set_first_occurrences)
  with snoc show ?case
    by (auto simp: first_occurrences_snoc)
qed

lemma first_occurrences_id: "distinct (map k xs) \<Longrightarrow> first_occurrences k xs = xs"
  by (induction xs rule: rev_induct) (auto simp: first_occurrences_Nil first_occurrences_snoc)

lemma first_occurrences_inj:
  assumes "inj_on k (set xs)"
  shows "set (first_occurrences k xs) = set xs" and "distinct (first_occurrences k xs)"
proof -
  show "set (first_occurrences k xs) = set xs"
  proof
    show "set (first_occurrences k xs) \<subseteq> set xs"
      by (rule set_first_occurrences_subset)
    show "set xs \<subseteq> set (first_occurrences k xs)"
    proof
      fix x assume x: "x \<in> set xs"
      then have "k x \<in> k ` set (first_occurrences k xs)"
        by (simp add: key_set_first_occurrences)
      then obtain y where y: "y \<in> set (first_occurrences k xs)" "k x = k y"
        by auto
      with set_first_occurrences_subset [of k xs] have "y \<in> set xs"
        by auto
      with assms x y have "x = y"
        by (auto dest: inj_onD)
      with y show "x \<in> set (first_occurrences k xs)"
        by simp
    qed
  qed
  show "distinct (first_occurrences k xs)"
    using distinct_key_first_occurrences [of k xs] by (simp add: distinct_map)
qed

lemma mset_keys_first_occurrences:
  assumes "set P = set L"
  shows "mset (map k (first_occurrences k P)) = mset (map k (first_occurrences k L))"
proof -
  have "set (map k (first_occurrences k P)) = set (map k (first_occurrences k L))"
    using assms by (simp add: key_set_first_occurrences)
  then show ?thesis
    by (simp only: set_eq_iff_mset_eq_distinct [symmetric] distinct_key_first_occurrences)
qed

text \<open>The \<^verbatim>\<open>reduce\<close> of the source keeps the first occurrence of every key.\<close>

lemma js_reduce_unique:
  assumes same: "\<And>a b. same a b \<longleftrightarrow> k a = k b"
  shows "js_reduce (\<lambda>unique o'. if \<not> js_some (\<lambda>obj. same obj o') unique
                                  then js_push unique o' else unique) [] xs
         = first_occurrences k xs"
proof (induction xs rule: rev_induct)
  case Nil
  show ?case by (simp add: js_reduce_def first_occurrences_Nil)
next
  case (snoc x xs)
  have "js_some (\<lambda>obj. same obj x) (first_occurrences k xs) \<longleftrightarrow> k x \<in> k ` set xs"
    unfolding js_some_def list_ex_iff same
    using key_set_first_occurrences [of k xs] by (metis (no_types, lifting) image_iff)
  with snoc show ?case
    by (simp add: js_reduce_def first_occurrences_snoc js_push_def)
qed

lemma js_reduce_unique_map:
  "js_reduce (\<lambda>unique o'. if \<not> js_some (\<lambda>id'. id' = k o') unique
                           then js_push unique (k o') else unique) [] xs
   = map k (first_occurrences k xs)"
proof (induction xs rule: rev_induct)
  case Nil
  show ?case by (simp add: js_reduce_def first_occurrences_Nil)
next
  case (snoc x xs)
  have "js_some (\<lambda>id'. id' = k x) (map k (first_occurrences k xs)) \<longleftrightarrow> k x \<in> k ` set xs"
    unfolding js_some_def list_ex_iff
    using key_set_first_occurrences [of k xs] by auto
  with snoc show ?case
    by (simp add: js_reduce_def first_occurrences_snoc js_push_def)
qed

subsection \<open>Sorting with a comparator\<close>

text \<open>
  When the comparator is positive exactly where a key into a linear order decreases, the
  sort is the library's stable sort by that key.
\<close>

lemma js_sort_sort_key:
  fixes key :: "'a \<Rightarrow> 'k::linorder"
  assumes "\<And>a b. cmp a b > 0 \<longleftrightarrow> \<not> key a \<le> key b"
  shows "js_sort cmp xs = sort_key key xs"
proof -
  have ins: "js_insert cmp a ys = insort_key key a ys" for a ys
    by (induction ys) (simp_all add: assms)
  show ?thesis
    by (induction xs) (simp_all add: js_sort_def ins)
qed

lemma sorted_pairs_iff:
  "sorted (map (\<lambda>r. (f r :: int, g r :: int)) xs) \<longleftrightarrow>
   sorted_wrt (\<lambda>a b. f a < f b \<or> (f a = f b \<and> g a \<le> g b)) xs"
  by (induction xs) (auto simp: less_eq_prod_def)

lemma distinct_key_sort_key:
  "distinct (map k (sort_key f xs)) \<longleftrightarrow> distinct (map k xs)"
proof -
  have "mset (map k (sort_key f xs)) = mset (map k xs)"
    by simp
  then show ?thesis
    by (rule mset_eq_imp_distinct_iff)
qed

lemma map_sort_key_cong:
  fixes f :: "'a \<Rightarrow> 'k::linorder"
  assumes "mset (map f xs) = mset (map f ys)"
  shows "map f (sort_key f xs) = map f (sort_key f ys)"
proof -
  have "mset (map f (sort_key f xs)) = mset (map f (sort_key f ys))"
    using assms by simp
  moreover have "sorted (map f (sort_key f xs))"
    by simp
  ultimately have "sort (map f (sort_key f ys)) = map f (sort_key f xs)"
    by (rule properties_for_sort)
  then show ?thesis
    by (simp add: sorted_sort_id)
qed

subsection \<open>The canonicalizers as sorts of first occurrences\<close>

lemma formatDripsReceivers_sort_key:
  "formatDripsReceivers bn rs =
     sort_key (\<lambda>r. (bn (userId r), bn (config r)))
       (first_occurrences (\<lambda>r. (userId r, bn (config r))) rs)"
proof -
  have u: "js_reduce
             (\<lambda>unique o'.
                if \<not> js_some (\<lambda>obj. userId obj = userId o' \<and> bn (config obj) = bn (config o')) unique
                then js_push unique o' else unique) [] rs
           = first_occurrences (\<lambda>r. (userId r, bn (config r))) rs"
    by (rule js_reduce_unique) simp
  have s: "js_sort (compareDripsReceivers bn) ys
           = sort_key (\<lambda>r. (bn (userId r), bn (config r))) ys" for ys
    by (rule js_sort_sort_key) (auto simp: compareDripsReceivers_def less_eq_prod_def)
  show ?thesis
    by (simp add: formatDripsReceivers_def u s)
qed

lemma formatSplitReceivers_sort_key:
  "formatSplitReceivers bn rs =
     sort_key (\<lambda>r. bn (userId r)) (first_occurrences (\<lambda>r. (userId r, weight r)) rs)"
proof -
  have u: "js_reduce
             (\<lambda>unique o'.
                if \<not> js_some (\<lambda>obj. userId obj = userId o' \<and> weight obj = weight o') unique
                then js_push unique o' else unique) [] rs
           = first_occurrences (\<lambda>r. (userId r, weight r)) rs"
    by (rule js_reduce_unique) simp
  have s: "js_sort (compareSplitsReceivers bn) ys = sort_key (\<lambda>r. bn (userId r)) ys" for ys
    by (rule js_sort_sort_key) (auto simp: compareSplitsReceivers_def)
  show ?thesis
    by (simp add: formatSplitReceivers_def u s)
qed

subsection \<open>The store\<close>

text \<open>
  With the accumulator in a new array at the end of the store, the \<^verbatim>\<open>reduce\<close> on the
  store changes that array only, and fills it as the \<^verbatim>\<open>reduce\<close> on contents does.
\<close>

lemma array_reduce_fresh:
  assumes "r < length h0" "\<forall>i\<in>set ks. i < length (h0 ! r)"
  shows "array_reduce
           (\<lambda>unique o' h. (unique, if \<not> array_some (\<lambda>obj. same obj o') unique h
                                    then array_push unique o' h else h))
           r ks (length h0) (h0 @ [acc])
         = (length h0,
            h0 @ [js_reduce (\<lambda>unique o'. if \<not> js_some (\<lambda>obj. same obj o') unique
                                           then js_push unique o' else unique)
                    acc (map (nth (h0 ! r)) ks)])"
  using assms
proof (induction ks arbitrary: acc)
  case Nil
  show ?case by (simp add: js_reduce_def)
next
  case (Cons i ks)
  then have i: "i < length (h0 ! r)" and ks: "\<forall>i\<in>set ks. i < length (h0 ! r)"
    by simp_all
  have r: "(h0 @ [acc]) ! r = h0 ! r"
    using Cons.prems(1) by (simp add: nth_append)
  show ?case
    using Cons.IH [OF Cons.prems(1) ks] i r
    by (simp add: array_some_def array_push_def js_reduce_def)
qed

lemma formatDripsReceivers_arr_eq:
  assumes "receivers < length h"
  shows "formatDripsReceivers_arr bn receivers h
         = (length h, h @ [formatDripsReceivers bn (h ! receivers)])"
proof -
  have "(h @ [[]]) ! receivers = h ! receivers"
    using assms by (simp add: nth_append)
  then show ?thesis
    using array_reduce_fresh [OF assms, of "[0..<length (h ! receivers)]" _ "[]"]
    by (simp add: formatDripsReceivers_arr_def array_new_def array_sort_def
        formatDripsReceivers_def map_nth)
qed


subsection \<open>Statements that may throw\<close>

lemma js_forEach_Inl:
  "js_forEach f xs = Inl e \<Longrightarrow> \<exists>x \<in> set xs. f x = Inl e"
proof (induction xs)
  case Nil
  then show ?case by simp
next
  case (Cons x xs)
  then show ?case by (cases "f x") auto
qed

lemma js_forEach_Inr:
  "js_forEach f xs = Inr () \<longleftrightarrow> (\<forall>x \<in> set xs. f x = Inr ())"
proof (induction xs)
  case Nil
  show ?case by simp
next
  case (Cons x xs)
  then show ?case by (cases "f x") auto
qed


lemma validateDripsReceiverConfig_code:
  "validateDripsReceiverConfig (Some c) = Inl e \<Longrightarrow> code e = INVALID_DRIPS_RECEIVER"
  by (auto simp: validateDripsReceiverConfig_def error_defs split: if_splits)

lemma validateDripsReceivers_code:
  assumes "validateDripsReceivers (Some rs) = Inl e"
  shows "code e = INVALID_ARGUMENT \<longleftrightarrow> length rs > 100"
proof (cases "length rs > 100")
  case True
  with assms show ?thesis
    by (auto simp: validateDripsReceivers_def MAX_DRIPS_RECEIVERS_def error_defs)
next
  case False
  with assms have "\<exists>x \<in> set rs.
      (if isNullOrUndefined (userId x)
       then Inl (dripsReceiverError ''userId'' (StringValue (userId x)))
       else if isNullOrUndefined (config x)
       then Inl (dripsReceiverError ''config'' (ConfigValue (config x)))
       else validateDripsReceiverConfig (config x)) = Inl e"
    by (auto simp: validateDripsReceivers_def MAX_DRIPS_RECEIVERS_def split: if_splits
        dest!: js_forEach_Inl)
  then have "code e = INVALID_DRIPS_RECEIVER"
    by (auto simp: error_defs isNullOrUndefined_def split: if_splits
        dest: validateDripsReceiverConfig_code)
  with False show ?thesis by simp
qed

lemma validateSplitsReceivers_code:
  assumes "validateSplitsReceivers (Some rs) = Inl e"
  shows "code e = INVALID_ARGUMENT \<longleftrightarrow> length rs > 200"
proof (cases "length rs > 200")
  case True
  with assms show ?thesis
    by (auto simp: validateSplitsReceivers_def MAX_SPLITS_RECEIVERS_def error_defs)
next
  case False
  with assms have "\<exists>x \<in> set rs.
      (if falsy (userId x)
       then Inl (splitsReceiverError ''userId'' (BigNumberishValue (userId x)))
       else if isNullOrUndefined (weight x)
       then Inl (splitsReceiverError ''weight'' (BigNumberishValue (weight x)))
       else if js_le_zero (the (weight x))
       then Inl (splitsReceiverError ''weight'' (BigNumberishValue (weight x)))
       else Inr ()) = Inl e"
    by (auto simp: validateSplitsReceivers_def MAX_SPLITS_RECEIVERS_def split: if_splits
        dest!: js_forEach_Inl)
  then have "code e = INVALID_SPLITS_RECEIVER"
    by (auto simp: error_defs split: if_splits)
  with False show ?thesis by simp
qed

section \<open>The receiver canonicalizer\<close>

text \<open>
  Claim C1.  For every list of drips receivers, \<^verbatim>\<open>#formatDripsReceivers\<close>
  (1) keeps, of the receivers with the same identity key, the first one: the key is the
  \<^verbatim>\<open>userId\<close> (compared with \<^verbatim>\<open>===\<close>) and the \<^verbatim>\<open>config\<close> (compared as a big integer);
  (2) returns the kept receivers in ascending order of the big integer of the \<^verbatim>\<open>userId\<close>,
  and of the big integer of the \<^verbatim>\<open>config\<close> where the first is equal;
  (3) returns an array that was not in the store before the call, and leaves every array
  that was there, the argument among them, as it was.
\<close>

theorem formatDripsReceivers_canonical:
  assumes "receivers < length h"
  shows "case formatDripsReceivers_arr bn receivers h of
           (sortedReceivers, h') \<Rightarrow>
             mset (h' ! sortedReceivers)
               = mset (first_occurrences (\<lambda>r. (userId r, bn (config r))) (h ! receivers))
           \<and> sorted_wrt (\<lambda>a b. bn (userId a) < bn (userId b)
                   \<or> (bn (userId a) = bn (userId b) \<and> bn (config a) \<le> bn (config b)))
                 (h' ! sortedReceivers)
           \<and> sortedReceivers \<noteq> receivers
           \<and> length h \<le> sortedReceivers
           \<and> (\<forall>a < length h. h' ! a = h ! a)"
  using assms
    sorted_pairs_iff [of "\<lambda>r. bn (userId r)" "\<lambda>r. bn (config r)"
      "formatDripsReceivers bn (h ! receivers)"]
  by (simp add: formatDripsReceivers_arr_eq nth_append formatDripsReceivers_sort_key)

theorem formatDripsReceivers_canonical_witness:
  "(0::nat) < length
       [[\<lparr>userId = JsString 100, config = JsBigint 5\<rparr>,
         \<lparr>userId = JsString 1, config = JsBigint 5\<rparr>,
         \<lparr>userId = JsString 100, config = JsNumber 5\<rparr>,
         \<lparr>userId = JsString 50, config = JsBigint 5\<rparr>]]
   \<and> formatDripsReceivers_arr toBN 0
       [[\<lparr>userId = JsString 100, config = JsBigint 5\<rparr>,
         \<lparr>userId = JsString 1, config = JsBigint 5\<rparr>,
         \<lparr>userId = JsString 100, config = JsNumber 5\<rparr>,
         \<lparr>userId = JsString 50, config = JsBigint 5\<rparr>]]
     = (1, [[\<lparr>userId = JsString 100, config = JsBigint 5\<rparr>,
             \<lparr>userId = JsString 1, config = JsBigint 5\<rparr>,
             \<lparr>userId = JsString 100, config = JsNumber 5\<rparr>,
             \<lparr>userId = JsString 50, config = JsBigint 5\<rparr>],
            [\<lparr>userId = JsString 1, config = JsBigint 5\<rparr>,
             \<lparr>userId = JsString 50, config = JsBigint 5\<rparr>,
             \<lparr>userId = JsString 100, config = JsBigint 5\<rparr>]])
   \<and> mset [\<lparr>userId = JsString 1, config = JsBigint 5\<rparr>,
            \<lparr>userId = JsString 50, config = JsBigint 5\<rparr>,
            \<lparr>userId = JsString 100, config = JsBigint 5\<rparr>]
     = mset (first_occurrences (\<lambda>r. (userId r, toBN (config r)))
          [\<lparr>userId = JsString 100, config = JsBigint 5\<rparr>,
           \<lparr>userId = JsString 1, config = JsBigint 5\<rparr>,
           \<lparr>userId = JsString 100, config = JsNumber 5\<rparr>,
           \<lparr>userId = JsString 50, config = JsBigint 5\<rparr>])"
  using formatDripsReceivers_canonical [of 0
      "[[\<lparr>userId = JsString 100, config = JsBigint 5\<rparr>,
         \<lparr>userId = JsString 1, config = JsBigint 5\<rparr>,
         \<lparr>userId = JsString 100, config = JsNumber 5\<rparr>,
         \<lparr>userId = JsString 50, config = JsBigint 5\<rparr>]]" toBN]
  by (simp add: formatDripsReceivers_arr_def array_defs js_array_defs compareDripsReceivers_def)

text \<open>
  Claim C2, as stated: for every list \<open>L\<close> of drips receivers and every permutation
  \<open>P\<close> of \<open>L\<close>, canonicalizing \<open>P\<close> gives exactly the output of canonicalizing \<open>L\<close>.
  It fails where one integer is written in two ways.  The receivers
  \<^verbatim>\<open>{ userId: '1', config: 5n }\<close> and \<^verbatim>\<open>{ userId: 1, config: 5n }\<close> are not \<^verbatim>\<open>===\<close> in
  their \<^verbatim>\<open>userId\<close>, so both are kept; the comparator finds them equal, so the stable sort
  leaves them in the order of the input.
\<close>

theorem formatDripsReceivers_permutation_counterexample:
  "mset [\<lparr>userId = JsString 1, config = JsBigint 5\<rparr>, \<lparr>userId = JsNumber 1, config = JsBigint 5\<rparr>]
   = mset [\<lparr>userId = JsNumber 1, config = JsBigint 5\<rparr>, \<lparr>userId = JsString 1, config = JsBigint 5\<rparr>]
   \<and> formatDripsReceivers toBN
        [\<lparr>userId = JsString 1, config = JsBigint 5\<rparr>, \<lparr>userId = JsNumber 1, config = JsBigint 5\<rparr>]
     \<noteq> formatDripsReceivers toBN
        [\<lparr>userId = JsNumber 1, config = JsBigint 5\<rparr>, \<lparr>userId = JsString 1, config = JsBigint 5\<rparr>]"
  by (simp add: formatDripsReceivers_def js_array_defs compareDripsReceivers_def)

text \<open>
  Claim C2, amended: for every list \<open>L\<close> of drips receivers and every permutation \<open>P\<close>
  of \<open>L\<close>, canonicalizing \<open>P\<close> and canonicalizing \<open>L\<close> give the same sequence of
  (\<^verbatim>\<open>userId\<close>, \<^verbatim>\<open>config\<close>) as big integers; and they give exactly the same output when no
  two different receivers of \<open>L\<close> have the same \<^verbatim>\<open>userId\<close> and the same \<^verbatim>\<open>config\<close> as
  big integers.
\<close>

theorem formatDripsReceivers_permutation:
  assumes perm: "mset P = mset L"
  shows "map (\<lambda>r. (bn (userId r), bn (config r))) (formatDripsReceivers bn P)
           = map (\<lambda>r. (bn (userId r), bn (config r))) (formatDripsReceivers bn L)
         \<and> (inj_on (\<lambda>r. (bn (userId r), bn (config r))) (set L)
              \<longrightarrow> formatDripsReceivers bn P = formatDripsReceivers bn L)"
proof
  let ?k = "\<lambda>r. (userId r, bn (config r))"
  let ?f = "\<lambda>r. (bn (userId r), bn (config r))"
  have set: "set P = set L"
    using perm by (rule mset_eq_setD)
  have "mset (map ?k (first_occurrences ?k P)) = mset (map ?k (first_occurrences ?k L))"
    using set by (rule mset_keys_first_occurrences)
  then have "image_mset (\<lambda>(u, c). (bn u, c)) (mset (map ?k (first_occurrences ?k P)))
           = image_mset (\<lambda>(u, c). (bn u, c)) (mset (map ?k (first_occurrences ?k L)))"
    by (rule arg_cong)
  then have "mset (map ?f (first_occurrences ?k P)) = mset (map ?f (first_occurrences ?k L))"
    by (simp add: image_mset.compositionality comp_def)
  then show "map ?f (formatDripsReceivers bn P) = map ?f (formatDripsReceivers bn L)"
    unfolding formatDripsReceivers_sort_key by (rule map_sort_key_cong)
  show "inj_on ?f (set L) \<longrightarrow> formatDripsReceivers bn P = formatDripsReceivers bn L"
  proof
    assume inj: "inj_on ?f (set L)"
    have k: "inj_on ?k (set L)"
      using inj by (auto simp: inj_on_def)
    have "mset (first_occurrences ?k P) = mset (first_occurrences ?k L)"
      using first_occurrences_inj [OF k] first_occurrences_inj [of ?k P] k set
      by (simp add: set_eq_iff_mset_eq_distinct [symmetric])
    moreover have "inj_on ?f (set (first_occurrences ?k P))"
      using inj first_occurrences_inj(1) [of ?k P] k set by simp
    ultimately have "sort_key ?f (first_occurrences ?k P) = sort_key ?f (first_occurrences ?k L)"
      by (intro sort_key_inj_key_eq) simp_all
    then show "formatDripsReceivers bn P = formatDripsReceivers bn L"
      by (simp add: formatDripsReceivers_sort_key)
  qed
qed

theorem formatDripsReceivers_permutation_witness:
  "mset [\<lparr>userId = JsString 1, config = JsBigint 9\<rparr>,
         \<lparr>userId = JsString 100, config = JsBigint 5\<rparr>,
         \<lparr>userId = JsString 1, config = JsBigint 5\<rparr>,
         \<lparr>userId = JsString 50, config = JsBigint 5\<rparr>]
   = mset [\<lparr>userId = JsString 100, config = JsBigint 5\<rparr>,
           \<lparr>userId = JsString 1, config = JsBigint 5\<rparr>,
           \<lparr>userId = JsString 50, config = JsBigint 5\<rparr>,
           \<lparr>userId = JsString 1, config = JsBigint 9\<rparr>]
   \<and> inj_on (\<lambda>r. (toBN (userId r), toBN (config r)))
       (set [\<lparr>userId = JsString 100, config = JsBigint 5\<rparr>,
             \<lparr>userId = JsString 1, config = JsBigint 5\<rparr>,
             \<lparr>userId = JsString 50, config = JsBigint 5\<rparr>,
             \<lparr>userId = JsString 1, config = JsBigint 9\<rparr>])
   \<and> formatDripsReceivers toBN
       [\<lparr>userId = JsString 1, config = JsBigint 9\<rparr>,
        \<lparr>userId = JsString 100, config = JsBigint 5\<rparr>,
        \<lparr>userId = JsString 1, config = JsBigint 5\<rparr>,
        \<lparr>userId = JsString 50, config = JsBigint 5\<rparr>]
     = formatDripsReceivers toBN
       [\<lparr>userId = JsString 100, config = JsBigint 5\<rparr>,
        \<lparr>userId = JsString 1, config = JsBigint 5\<rparr>,
        \<lparr>userId = JsString 50, config = JsBigint 5\<rparr>,
        \<lparr>userId = JsString 1, config = JsBigint 9\<rparr>]"
  using formatDripsReceivers_permutation [of
      "[\<lparr>userId = JsString 1, config = JsBigint 9\<rparr>,
        \<lparr>userId = JsString 100, config = JsBigint 5\<rparr>,
        \<lparr>userId = JsString 1, config = JsBigint 5\<rparr>,
        \<lparr>userId = JsString 50, config = JsBigint 5\<rparr>]"
      "[\<lparr>userId = JsString 100, config = JsBigint 5\<rparr>,
        \<lparr>userId = JsString 1, config = JsBigint 5\<rparr>,
        \<lparr>userId = JsString 50, config = JsBigint 5\<rparr>,
        \<lparr>userId = JsString 1, config = JsBigint 9\<rparr>]" toBN]
  by simp

text \<open>
  Claim C3.  Canonicalization is idempotent: for every list of drips receivers and every
  list of splits receivers, canonicalizing the canonicalized list gives the canonicalized
  list.
\<close>

theorem formatReceivers_idempotent:
  "formatDripsReceivers bn (formatDripsReceivers bn ds) = formatDripsReceivers bn ds \<and>
   formatSplitReceivers bn (formatSplitReceivers bn ss) = formatSplitReceivers bn ss"
proof
  let ?d = "formatDripsReceivers bn ds"
  have "distinct (map (\<lambda>r. (userId r, bn (config r))) ?d)"
    by (simp add: formatDripsReceivers_sort_key distinct_key_sort_key
        distinct_key_first_occurrences)
  then have "first_occurrences (\<lambda>r. (userId r, bn (config r))) ?d = ?d"
    by (rule first_occurrences_id)
  moreover have "sorted (map (\<lambda>r. (bn (userId r), bn (config r))) ?d)"
    by (simp add: formatDripsReceivers_sort_key)
  ultimately show "formatDripsReceivers bn ?d = ?d"
    using formatDripsReceivers_sort_key [of bn ?d] by (simp add: sort_key_id_if_sorted)
next
  let ?s = "formatSplitReceivers bn ss"
  have "distinct (map (\<lambda>r. (userId r, weight r)) ?s)"
    by (simp add: formatSplitReceivers_sort_key distinct_key_sort_key
        distinct_key_first_occurrences)
  then have "first_occurrences (\<lambda>r. (userId r, weight r)) ?s = ?s"
    by (rule first_occurrences_id)
  moreover have "sorted (map (\<lambda>r. bn (userId r)) ?s)"
    by (simp add: formatSplitReceivers_sort_key)
  ultimately show "formatSplitReceivers bn ?s = ?s"
    using formatSplitReceivers_sort_key [of bn ?s] by (simp add: sort_key_id_if_sorted)
qed

theorem formatReceivers_idempotent_witness:
  "formatDripsReceivers toBN
     [\<lparr>userId = JsString 1, config = JsBigint 5\<rparr>, \<lparr>userId = JsNumber 1, config = JsBigint 5\<rparr>,
      \<lparr>userId = JsString 1, config = JsNumber 5\<rparr>, \<lparr>userId = JsString 0, config = JsBigint 7\<rparr>]
   = [\<lparr>userId = JsString 0, config = JsBigint 7\<rparr>, \<lparr>userId = JsString 1, config = JsBigint 5\<rparr>,
      \<lparr>userId = JsNumber 1, config = JsBigint 5\<rparr>]
   \<and> formatDripsReceivers toBN
       [\<lparr>userId = JsString 0, config = JsBigint 7\<rparr>, \<lparr>userId = JsString 1, config = JsBigint 5\<rparr>,
        \<lparr>userId = JsNumber 1, config = JsBigint 5\<rparr>]
     = [\<lparr>userId = JsString 0, config = JsBigint 7\<rparr>, \<lparr>userId = JsString 1, config = JsBigint 5\<rparr>,
        \<lparr>userId = JsNumber 1, config = JsBigint 5\<rparr>]
   \<and> formatSplitReceivers toBN
       (formatSplitReceivers toBN
          [\<lparr>userId = JsNumber 2, weight = JsNumber 1\<rparr>, \<lparr>userId = JsNumber 1, weight = JsNumber 7\<rparr>,
           \<lparr>userId = JsNumber 1, weight = JsNumber 5\<rparr>])
     = formatSplitReceivers toBN
          [\<lparr>userId = JsNumber 2, weight = JsNumber 1\<rparr>, \<lparr>userId = JsNumber 1, weight = JsNumber 7\<rparr>,
           \<lparr>userId = JsNumber 1, weight = JsNumber 5\<rparr>]"
proof -
  have a: "formatDripsReceivers toBN
     [\<lparr>userId = JsString 1, config = JsBigint 5\<rparr>, \<lparr>userId = JsNumber 1, config = JsBigint 5\<rparr>,
      \<lparr>userId = JsString 1, config = JsNumber 5\<rparr>, \<lparr>userId = JsString 0, config = JsBigint 7\<rparr>]
   = [\<lparr>userId = JsString 0, config = JsBigint 7\<rparr>, \<lparr>userId = JsString 1, config = JsBigint 5\<rparr>,
      \<lparr>userId = JsNumber 1, config = JsBigint 5\<rparr>]"
    by (simp add: formatDripsReceivers_def js_array_defs compareDripsReceivers_def)
  show ?thesis
    using a formatReceivers_idempotent [of toBN
      "[\<lparr>userId = JsString 1, config = JsBigint 5\<rparr>, \<lparr>userId = JsNumber 1, config = JsBigint 5\<rparr>,
        \<lparr>userId = JsString 1, config = JsNumber 5\<rparr>, \<lparr>userId = JsString 0, config = JsBigint 7\<rparr>]"
      "[\<lparr>userId = JsNumber 2, weight = JsNumber 1\<rparr>, \<lparr>userId = JsNumber 1, weight = JsNumber 7\<rparr>,
        \<lparr>userId = JsNumber 1, weight = JsNumber 5\<rparr>]"]
    by simp
qed

text \<open>
  Claim C4.  Canonicalizing the splits receivers
  \<^verbatim>\<open>[{userId:1,weight:5},{userId:1,weight:5},{userId:2,weight:1}]\<close> gives two entries,
  \<^verbatim>\<open>userId\<close> 1 and then \<^verbatim>\<open>userId\<close> 2.  For every list of splits receivers,
  \<^verbatim>\<open>#formatSplitReceivers\<close> keeps of the receivers with the same pair
  (\<^verbatim>\<open>userId\<close>, \<^verbatim>\<open>weight\<close>) the first one and returns the kept receivers in ascending
  order of the big integer of the \<^verbatim>\<open>userId\<close> alone: receivers with the same \<^verbatim>\<open>userId\<close>
  stay in the order of their first occurrences.
\<close>

theorem formatSplitReceivers_canonical:
  "formatSplitReceivers toBN
     [\<lparr>userId = JsNumber 1, weight = JsNumber 5\<rparr>,
      \<lparr>userId = JsNumber 1, weight = JsNumber 5\<rparr>,
      \<lparr>userId = JsNumber 2, weight = JsNumber 1\<rparr>]
   = [\<lparr>userId = JsNumber 1, weight = JsNumber 5\<rparr>, \<lparr>userId = JsNumber 2, weight = JsNumber 1\<rparr>]
   \<and> mset (formatSplitReceivers bn rs) = mset (first_occurrences (\<lambda>r. (userId r, weight r)) rs)
   \<and> sorted (map (\<lambda>r. bn (userId r)) (formatSplitReceivers bn rs))
   \<and> filter (\<lambda>r. bn (userId r) = u) (formatSplitReceivers bn rs)
       = filter (\<lambda>r. bn (userId r) = u) (first_occurrences (\<lambda>r. (userId r, weight r)) rs)"
proof (intro conjI)
  show "formatSplitReceivers toBN
     [\<lparr>userId = JsNumber 1, weight = JsNumber 5\<rparr>,
      \<lparr>userId = JsNumber 1, weight = JsNumber 5\<rparr>,
      \<lparr>userId = JsNumber 2, weight = JsNumber 1\<rparr>]
   = [\<lparr>userId = JsNumber 1, weight = JsNumber 5\<rparr>, \<lparr>userId = JsNumber 2, weight = JsNumber 1\<rparr>]"
    by (simp add: formatSplitReceivers_def js_array_defs compareSplitsReceivers_def)
  show "filter (\<lambda>r. bn (userId r) = u) (formatSplitReceivers bn rs)
       = filter (\<lambda>r. bn (userId r) = u) (first_occurrences (\<lambda>r. (userId r, weight r)) rs)"
    unfolding formatSplitReceivers_sort_key by (rule sort_key_stable)
qed (simp_all add: formatSplitReceivers_sort_key)

theorem formatSplitReceivers_canonical_witness:
  "formatSplitReceivers toBN
       [\<lparr>userId = JsString 2, weight = JsNumber 1\<rparr>,
        \<lparr>userId = JsString 1, weight = JsNumber 7\<rparr>,
        \<lparr>userId = JsString 2, weight = JsNumber 1\<rparr>,
        \<lparr>userId = JsString 1, weight = JsNumber 5\<rparr>]
   = [\<lparr>userId = JsString 1, weight = JsNumber 7\<rparr>,
      \<lparr>userId = JsString 1, weight = JsNumber 5\<rparr>,
      \<lparr>userId = JsString 2, weight = JsNumber 1\<rparr>]
   \<and> first_occurrences (\<lambda>r. (userId r, weight r))
       [\<lparr>userId = JsString 2, weight = JsNumber 1\<rparr>,
        \<lparr>userId = JsString 1, weight = JsNumber 7\<rparr>,
        \<lparr>userId = JsString 2, weight = JsNumber 1\<rparr>,
        \<lparr>userId = JsString 1, weight = JsNumber 5\<rparr>]
   = [\<lparr>userId = JsString 2, weight = JsNumber 1\<rparr>,
      \<lparr>userId = JsString 1, weight = JsNumber 7\<rparr>,
      \<lparr>userId = JsString 1, weight = JsNumber 5\<rparr>]"
  using formatSplitReceivers_canonical [of toBN
       "[\<lparr>userId = JsString 2, weight = JsNumber 1\<rparr>,
        \<lparr>userId = JsString 1, weight = JsNumber 7\<rparr>,
        \<lparr>userId = JsString 2, weight = JsNumber 1\<rparr>,
        \<lparr>userId = JsString 1, weight = JsNumber 5\<rparr>]" 1]
  by (simp add: first_occurrences_def formatSplitReceivers_def js_array_defs
      compareSplitsReceivers_def)

section \<open>Validation\<close>

text \<open>
  Claim C5.  The maximum counts are 100 drips receivers and 200 splits receivers.
  Validating a list of 101 drips receivers raises the \<^verbatim>\<open>INVALID_ARGUMENT\<close> error
  built by \<^verbatim>\<open>argumentError\<close>, and validating a list of 100 raises no error with that
  code.  In general \<^verbatim>\<open>validateDripsReceivers\<close> raises an \<^verbatim>\<open>INVALID_ARGUMENT\<close> error
  exactly for the lists longer than 100, and \<^verbatim>\<open>validateSplitsReceivers\<close> exactly for
  the lists longer than 200.
\<close>

theorem validateReceivers_max_count:
  "MAX_DRIPS_RECEIVERS = 100 \<and> MAX_SPLITS_RECEIVERS = 200
   \<and> (length ds101 = 101 \<longrightarrow>
        validateDripsReceivers (Some ds101)
          = Inl (argumentError ''receivers'' (DripsReceiversValue ds101))
        \<and> code (argumentError ''receivers'' (DripsReceiversValue ds101)) = INVALID_ARGUMENT)
   \<and> (length ds100 = 100 \<longrightarrow>
        (\<forall>e. validateDripsReceivers (Some ds100) = Inl e \<longrightarrow> code e \<noteq> INVALID_ARGUMENT))
   \<and> ((\<exists>e. validateDripsReceivers (Some ds) = Inl e \<and> code e = INVALID_ARGUMENT)
        \<longleftrightarrow> length ds > 100)
   \<and> ((\<exists>e. validateSplitsReceivers (Some ss) = Inl e \<and> code e = INVALID_ARGUMENT)
        \<longleftrightarrow> length ss > 200)"
proof (intro conjI impI allI)
  show "MAX_DRIPS_RECEIVERS = 100" by (simp add: MAX_DRIPS_RECEIVERS_def)
  show "MAX_SPLITS_RECEIVERS = 200" by (simp add: MAX_SPLITS_RECEIVERS_def)
  show "validateDripsReceivers (Some ds101)
          = Inl (argumentError ''receivers'' (DripsReceiversValue ds101))"
    if "length ds101 = 101"
    using that by (simp add: validateDripsReceivers_def MAX_DRIPS_RECEIVERS_def)
  show "code (argumentError ''receivers'' (DripsReceiversValue ds101)) = INVALID_ARGUMENT"
    by (simp add: argumentError_def)
  show "code e \<noteq> INVALID_ARGUMENT"
    if "length ds100 = 100" "validateDripsReceivers (Some ds100) = Inl e" for e
    using that validateDripsReceivers_code [of ds100 e] by simp
  show "(\<exists>e. validateDripsReceivers (Some ds) = Inl e \<and> code e = INVALID_ARGUMENT)
        \<longleftrightarrow> length ds > 100"
  proof
    assume "\<exists>e. validateDripsReceivers (Some ds) = Inl e \<and> code e = INVALID_ARGUMENT"
    then show "length ds > 100"
      using validateDripsReceivers_code by blast
  next
    assume "length ds > 100"
    then show "\<exists>e. validateDripsReceivers (Some ds) = Inl e \<and> code e = INVALID_ARGUMENT"
      by (simp add: validateDripsReceivers_def MAX_DRIPS_RECEIVERS_def argumentError_def)
  qed
  show "(\<exists>e. validateSplitsReceivers (Some ss) = Inl e \<and> code e = INVALID_ARGUMENT)
        \<longleftrightarrow> length ss > 200"
  proof
    assume "\<exists>e. validateSplitsReceivers (Some ss) = Inl e \<and> code e = INVALID_ARGUMENT"
    then show "length ss > 200"
      using validateSplitsReceivers_code by blast
  next
    assume "length ss > 200"
    then show "\<exists>e. validateSplitsReceivers (Some ss) = Inl e \<and> code e = INVALID_ARGUMENT"
      by (simp add: validateSplitsReceivers_def MAX_SPLITS_RECEIVERS_def argumentError_def)
  qed
qed

theorem validateReceivers_max_count_witness:
  "length (replicate 101 \<lparr>userId = Some ''7'', config = Some \<lparr>dripId = Some 0, start = Some 0,
       duration = Some 0, amountPerSec = Some 1\<rparr>\<rparr>) = 101
   \<and> code (argumentError ''receivers'' (DripsReceiversValue
        (replicate 101 \<lparr>userId = Some ''7'', config = Some \<lparr>dripId = Some 0, start = Some 0,
           duration = Some 0, amountPerSec = Some 1\<rparr>\<rparr>))) = INVALID_ARGUMENT
   \<and> validateDripsReceivers (Some (replicate 101 \<lparr>userId = Some ''7'',
        config = Some \<lparr>dripId = Some 0, start = Some 0, duration = Some 0,
          amountPerSec = Some 1\<rparr>\<rparr>))
     = Inl (argumentError ''receivers'' (DripsReceiversValue
         (replicate 101 \<lparr>userId = Some ''7'', config = Some \<lparr>dripId = Some 0, start = Some 0,
            duration = Some 0, amountPerSec = Some 1\<rparr>\<rparr>)))
   \<and> length (replicate 100 \<lparr>userId = Some ''7'', config = Some \<lparr>dripId = Some 0, start = Some 0,
       duration = Some 0, amountPerSec = Some 1\<rparr>\<rparr>) = 100
   \<and> validateDripsReceivers (Some (replicate 100 \<lparr>userId = Some ''7'',
        config = Some \<lparr>dripId = Some 0, start = Some 0, duration = Some 0,
          amountPerSec = Some 1\<rparr>\<rparr>))
     = Inr ()
   \<and> validateDripsReceivers (Some (replicate 100 \<lparr>userId = None,
        config = Some \<lparr>dripId = Some 0, start = Some 0, duration = Some 0,
          amountPerSec = Some 1\<rparr>\<rparr>))
     = Inl (dripsReceiverError ''userId'' (StringValue None))"
proof -
  have ok: "validateDripsReceivers (Some (replicate 100 \<lparr>userId = Some ''7'',
        config = Some \<lparr>dripId = Some 0, start = Some 0, duration = Some 0,
          amountPerSec = Some 1\<rparr>\<rparr>)) = Inr ()"
    by (simp add: validateDripsReceivers_def MAX_DRIPS_RECEIVERS_def js_forEach_Inr
        isNullOrUndefined_def validateDripsReceiverConfig_def)
  have "replicate 100 \<lparr>userId = None :: string option,
        config = Some \<lparr>dripId = Some 0, start = Some 0, duration = Some 0,
          amountPerSec = Some 1\<rparr>\<rparr>
      = \<lparr>userId = None,
        config = Some \<lparr>dripId = Some 0, start = Some 0, duration = Some 0,
          amountPerSec = Some 1\<rparr>\<rparr> # replicate 99 \<lparr>userId = None,
        config = Some \<lparr>dripId = Some 0, start = Some 0, duration = Some 0,
          amountPerSec = Some 1\<rparr>\<rparr>"
    by (simp add: replicate_Suc [symmetric] del: replicate_Suc)
  then have bad: "validateDripsReceivers (Some (replicate 100 \<lparr>userId = None,
        config = Some \<lparr>dripId = Some 0, start = Some 0, duration = Some 0,
          amountPerSec = Some 1\<rparr>\<rparr>))
     = Inl (dripsReceiverError ''userId'' (StringValue None))"
    by (simp add: validateDripsReceivers_def MAX_DRIPS_RECEIVERS_def isNullOrUndefined_def)
  show ?thesis
    using ok bad validateReceivers_max_count [of
      "replicate 101 \<lparr>userId = Some ''7'', config = Some \<lparr>dripId = Some 0, start = Some 0,
         duration = Some 0, amountPerSec = Some 1\<rparr>\<rparr>"
      "replicate 100 \<lparr>userId = None, config = Some \<lparr>dripId = Some 0, start = Some 0,
         duration = Some 0, amountPerSec = Some 1\<rparr>\<rparr>"]
    by simp
qed

text \<open>
  Claim C6.  Validating a drips receiver config whose \<^verbatim>\<open>amountPerSec\<close> is missing, is
  0 or is negative raises an error of the kind invalid drips receiver; with
  \<^verbatim>\<open>amountPerSec = 0\<close> and the other three fields present and not negative, the error
  names \<^verbatim>\<open>amountPerSec\<close>.  Validating a config with \<^verbatim>\<open>amountPerSec = 1\<close> and
  \<^verbatim>\<open>dripId\<close>, \<^verbatim>\<open>start\<close> and \<^verbatim>\<open>duration\<close> present and not negative raises no error.
\<close>

theorem validateDripsReceiverConfig_amountPerSec:
  "(isNullOrUndefined (amountPerSec c) \<or> the (amountPerSec c) \<le> 0 \<longrightarrow>
      (\<exists>e. validateDripsReceiverConfig (Some c) = Inl e \<and> code e = INVALID_DRIPS_RECEIVER))
   \<and> (0 \<le> d \<and> 0 \<le> s \<and> 0 \<le> t \<longrightarrow>
      validateDripsReceiverConfig
        (Some \<lparr>dripId = Some d, start = Some s, duration = Some t, amountPerSec = Some 0\<rparr>)
        = Inl (dripsReceiverConfigError ''amountPerSec'' (BigintValue (Some 0))))
   \<and> (0 \<le> d \<and> 0 \<le> s \<and> 0 \<le> t \<longrightarrow>
      validateDripsReceiverConfig
        (Some \<lparr>dripId = Some d, start = Some s, duration = Some t, amountPerSec = Some 1\<rparr>)
        = Inr ())"
proof (intro conjI impI)
  assume "isNullOrUndefined (amountPerSec c) \<or> the (amountPerSec c) \<le> 0"
  then have "\<exists>e. validateDripsReceiverConfig (Some c) = Inl e"
    by (simp add: validateDripsReceiverConfig_def)
  then show "\<exists>e. validateDripsReceiverConfig (Some c) = Inl e \<and> code e = INVALID_DRIPS_RECEIVER"
    using validateDripsReceiverConfig_code by blast
next
  assume "0 \<le> d \<and> 0 \<le> s \<and> 0 \<le> t"
  then show "validateDripsReceiverConfig
        (Some \<lparr>dripId = Some d, start = Some s, duration = Some t, amountPerSec = Some 0\<rparr>)
        = Inl (dripsReceiverConfigError ''amountPerSec'' (BigintValue (Some 0)))"
    by (simp add: validateDripsReceiverConfig_def isNullOrUndefined_def)
next
  assume "0 \<le> d \<and> 0 \<le> s \<and> 0 \<le> t"
  then show "validateDripsReceiverConfig
        (Some \<lparr>dripId = Some d, start = Some s, duration = Some t, amountPerSec = Some 1\<rparr>)
        = Inr ()"
    by (simp add: validateDripsReceiverConfig_def isNullOrUndefined_def)
qed

theorem validateDripsReceiverConfig_amountPerSec_witness:
  "(\<exists>e. validateDripsReceiverConfig
           (Some \<lparr>dripId = Some 1, start = Some 0, duration = Some 0, amountPerSec = None\<rparr>) = Inl e
         \<and> code e = INVALID_DRIPS_RECEIVER)
   \<and> (\<exists>e. validateDripsReceiverConfig
           (Some \<lparr>dripId = Some 1, start = Some 0, duration = Some 0, amountPerSec = Some (- 3)\<rparr>)
             = Inl e
         \<and> code e = INVALID_DRIPS_RECEIVER)
   \<and> validateDripsReceiverConfig
       (Some \<lparr>dripId = Some 1, start = Some 2, duration = Some 3, amountPerSec = Some 0\<rparr>)
       = Inl \<lparr>code = INVALID_DRIPS_RECEIVER,
              context = InvalidProperty ''amountPerSec'' (BigintValue (Some 0))\<rparr>
   \<and> validateDripsReceiverConfig
       (Some \<lparr>dripId = Some 1, start = Some 2, duration = Some 3, amountPerSec = Some 1\<rparr>)
       = Inr ()"
  using validateDripsReceiverConfig_amountPerSec [of
      "\<lparr>dripId = Some 1, start = Some 0, duration = Some 0, amountPerSec = None\<rparr>" 1 2 3]
    validateDripsReceiverConfig_amountPerSec [of
      "\<lparr>dripId = Some 1, start = Some 0, duration = Some 0, amountPerSec = Some (- 3)\<rparr>" 1 2 3]
  by (simp add: isNullOrUndefined_def dripsReceiverConfigError_def)

text \<open>
  Claim C10.  When the \<^verbatim>\<open>dripId\<close> of a drips receiver config is \<^verbatim>\<open>null\<close>,
  \<^verbatim>\<open>undefined\<close> or negative, the error that \<^verbatim>\<open>validateDripsReceiverConfig\<close> throws is
  built from the name \<^verbatim>\<open>'start'\<close> and the value of the field \<^verbatim>\<open>start\<close>: its context
  holds that name and that value, and not the name \<^verbatim>\<open>'dripId'\<close> with the value of
  \<^verbatim>\<open>dripId\<close>.
\<close>

theorem validateDripsReceiverConfig_dripId_context:
  assumes "isNullOrUndefined (dripId c) \<or> the (dripId c) < 0"
  shows "validateDripsReceiverConfig (Some c)
           = Inl (dripsReceiverConfigError ''start'' (BigintValue (start c)))
         \<and> context (dripsReceiverConfigError ''start'' (BigintValue (start c)))
           = InvalidProperty ''start'' (BigintValue (start c))
         \<and> code (dripsReceiverConfigError ''start'' (BigintValue (start c)))
           = INVALID_DRIPS_RECEIVER
         \<and> (\<forall>e. validateDripsReceiverConfig (Some c) = Inl e \<longrightarrow>
               context e \<noteq> InvalidProperty ''dripId'' (BigintValue (dripId c)))"
  using assms by (auto simp: validateDripsReceiverConfig_def error_defs)

theorem validateDripsReceiverConfig_dripId_context_witness:
  "the (dripId \<lparr>dripId = Some (- 1), start = Some 42, duration = Some 0,
                 amountPerSec = Some 1\<rparr>) < 0
   \<and> validateDripsReceiverConfig
       (Some \<lparr>dripId = Some (- 1), start = Some 42, duration = Some 0, amountPerSec = Some 1\<rparr>)
     = Inl \<lparr>code = INVALID_DRIPS_RECEIVER,
            context = InvalidProperty ''start'' (BigintValue (Some 42))\<rparr>
   \<and> isNullOrUndefined (dripId \<lparr>dripId = None, start = Some 42, duration = Some 0,
                                   amountPerSec = Some 1\<rparr>)
   \<and> validateDripsReceiverConfig
       (Some \<lparr>dripId = None, start = Some 42, duration = Some 0, amountPerSec = Some 1\<rparr>)
     = Inl \<lparr>code = INVALID_DRIPS_RECEIVER,
            context = InvalidProperty ''start'' (BigintValue (Some 42))\<rparr>"
  using validateDripsReceiverConfig_dripId_context [of
      "\<lparr>dripId = Some (- 1), start = Some 42, duration = Some 0, amountPerSec = Some 1\<rparr>"]
    validateDripsReceiverConfig_dripId_context [of
      "\<lparr>dripId = None, start = Some 42, duration = Some 0, amountPerSec = Some 1\<rparr>"]
  by (simp add: isNullOrUndefined_def dripsReceiverConfigError_def)





section \<open>Queries and estimates\<close>

text \<open>
  Claim C7.  \<^verbatim>\<open>getUsersStreamingToUser\<close> returns, for the events that the subgraph
  answers with, the \<^verbatim>\<open>senderUserId\<close> of every event whose \<^verbatim>\<open>senderUserId\<close> no earlier
  event has, in the order of the events: every sender of an event is in the result exactly
  once, at the place of its first event.
\<close>

theorem getUsersStreamingToUser_unique_senders:
  assumes "\<not> falsy receiverUserId'"
    and "getEvents (the receiverUserId') = Inr events"
  shows "\<exists>senders. getUsersStreamingToUser getEvents receiverUserId' = Inr senders
           \<and> senders = map senderUserId (first_occurrences senderUserId events)
           \<and> distinct senders
           \<and> set senders = senderUserId ` set events"
  using assms
  by (simp add: getUsersStreamingToUser_def js_reduce_unique_map distinct_key_first_occurrences
      key_set_first_occurrences)

theorem getUsersStreamingToUser_unique_senders_witness:
  "\<not> falsy (Some (JsString 7))
   \<and> getUsersStreamingToUser
       (\<lambda>r. Inr [\<lparr>eventId = ''a'', eventConfig = 1, senderUserId = 30, receiverUserId = 7,
                    dripsSetEvent = (''s1'', 0), blockTimestamp = 10\<rparr>,
                  \<lparr>eventId = ''b'', eventConfig = 1, senderUserId = 20, receiverUserId = 7,
                    dripsSetEvent = (''s2'', 0), blockTimestamp = 11\<rparr>,
                  \<lparr>eventId = ''c'', eventConfig = 2, senderUserId = 30, receiverUserId = 7,
                    dripsSetEvent = (''s3'', 0), blockTimestamp = 12\<rparr>])
       (Some (JsString 7))
     = Inr [30, 20]"
  using getUsersStreamingToUser_unique_senders [of "Some (JsString 7)"
       "\<lambda>r. Inr [\<lparr>eventId = ''a'', eventConfig = 1, senderUserId = 30, receiverUserId = 7,
                    dripsSetEvent = (''s1'', 0), blockTimestamp = 10\<rparr>,
                  \<lparr>eventId = ''b'', eventConfig = 1, senderUserId = 20, receiverUserId = 7,
                    dripsSetEvent = (''s2'', 0), blockTimestamp = 11\<rparr>,
                  \<lparr>eventId = ''c'', eventConfig = 2, senderUserId = 30, receiverUserId = 7,
                    dripsSetEvent = (''s3'', 0), blockTimestamp = 12\<rparr>]"]
  by (simp add: first_occurrences_def)

text \<open>
  Claim C9.  \<^verbatim>\<open>estimate\<close> has no side effect: after one call, and after any number of
  calls, the estimator (its snapshot included) and the requests made to the Account
  Service are what they were, and the result is the engine's estimate for the stored
  snapshot and the cycle of the current time.  \<^verbatim>\<open>refreshAccount\<close> makes one request, and when the request succeeds the
  snapshot is the fetched account, whatever the snapshot was before; when the request
  fails the snapshot stays.
\<close>

theorem estimate_side_effect_free:
  "snd (estimate engine getInfo now squeezes this requests) = (this, requests)
   \<and> ((\<lambda>s. snd (estimate engine getInfo now squeezes (fst s) (snd s))) ^^ n) (this, requests)
       = (this, requests)
   \<and> fst (estimate engine getInfo now squeezes this requests)
       = engine (account this) (getInfo (chainId this) now) squeezes
   \<and> (fetchAccount requests (userId this) (chainId this) = Inr fetched \<longrightarrow>
        refreshAccount fetchAccount this requests
          = (Inr (), \<lparr>userId = userId this, chainId = chainId this, account = Some fetched\<rparr>,
             requests @ [(userId this, chainId this)]))
   \<and> (fetchAccount' requests (userId this) (chainId this) = Inl err \<longrightarrow>
        refreshAccount fetchAccount' this requests
          = (Inl err, this, requests @ [(userId this, chainId this)]))"
proof (intro conjI impI)
  show "((\<lambda>s. snd (estimate engine getInfo now squeezes (fst s) (snd s))) ^^ n) (this, requests)
       = (this, requests)"
    by (induction n) (simp_all add: estimate_def)
qed (simp_all add: estimate_def refreshAccount_def)

theorem estimate_side_effect_free_witness:
  "snd (estimate (\<lambda>a c s. (a, c, s)) (\<lambda>c t. t - t mod 604800) (1209601 :: int) [''sq'']
          \<lparr>userId = ''7'', chainId = 5, account = Some (10 :: int)\<rparr> [(''7'', 5)])
     = (\<lparr>userId = ''7'', chainId = 5, account = Some 10\<rparr>, [(''7'', 5)])
   \<and> fst (estimate (\<lambda>a c s. (a, c, s)) (\<lambda>c t. t - t mod 604800) 1209601 [''sq'']
          \<lparr>userId = ''7'', chainId = 5, account = Some (10 :: int)\<rparr> [(''7'', 5)])
     = (Some 10, 1209600 :: int, [''sq''])
   \<and> refreshAccount (\<lambda>log u c. Inr (int (length log) + 11) :: string + int)
        \<lparr>userId = ''7'', chainId = 5, account = Some 10\<rparr> [(''7'', 5)]
     = (Inr (), \<lparr>userId = ''7'', chainId = 5, account = Some 12\<rparr>, [(''7'', 5), (''7'', 5)])
   \<and> refreshAccount (\<lambda>log u c. Inl ''query failed'' :: string + int)
        \<lparr>userId = ''7'', chainId = 5, account = Some 10\<rparr> [(''7'', 5)]
     = (Inl ''query failed'', \<lparr>userId = ''7'', chainId = 5, account = Some 10\<rparr>,
        [(''7'', 5), (''7'', 5)])"
  using estimate_side_effect_free [where
      engine = "\<lambda>a c s. (a, c, s)" and getInfo = "\<lambda>c t. t - t mod 604800"
      and now = "1209601 :: int" and squeezes = "[''sq'']"
      and this = "\<lparr>userId = ''7'', chainId = 5, account = Some (10 :: int)\<rparr>"
      and requests = "[(''7'', 5)]" and n = 3
      and fetchAccount = "\<lambda>log u c. Inr (int (length log) + 11) :: string + int"
      and fetched = 12
      and fetchAccount' = "\<lambda>log u c. Inl ''query failed'' :: string + int"
      and err = "''query failed''"]
  by simp

end
